theory Spec2Isabelle
  imports Complex_Main "HOL-Library.Word"
begin

section \<open>Values at the boundary of the tokenizer module\<close>

text \<open>
  The module \<^verbatim>\<open>src/lib/tokenizers.ts\<close> keeps two pieces of module state (a \<^verbatim>\<open>Map\<close> of
  loaded encoders and a singleton for the Llama approximation) and calls into the
  \<^verbatim>\<open>tiktoken\<close> package and the JavaScript runtime. The package and the runtime are not part
  of the repository: they are a parameter of every function below (the record \<open>env\<close>).

  Strings are lists of code units below 256 (\<open>char\<close>), so \<open>length\<close> is the source's
  \<^verbatim>\<open>text.length\<close>. A thrown value is an \<open>exn\<close>; a function that may throw returns
  \<open>exn + 'a\<close> with \<open>Inl\<close> for the throw. A clock reading is a double, taken as the rational number it
  is; the arithmetic of doubles is the runtime's.
\<close>

datatype exn = Thrown string

text \<open>An encoder object of the package, known by its identity.\<close>

type_synonym Tiktoken = nat

datatype TiktokenEncoding = cl100k_base | o200k_base | p50k_base | r50k_base

text \<open>
  What \<^verbatim>\<open>encoding.encode\<close> may hand back (\<^verbatim>\<open>encResult: any\<close>). The last variant is any value
  that is neither an array nor one of the three unsigned buffers; it carries what
  \<^verbatim>\<open>Array.from\<close> does on it (a throw for \<^verbatim>\<open>null\<close> or a failing iterator, the elements
  otherwise).
\<close>

datatype raw_tokens =
    JsArray "int list"
  | Uint32Array "32 word list"
  | Uint16Array "16 word list"
  | Uint8Array "8 word list"
  | OtherTokens "exn + int list"

text \<open>
  What \<^verbatim>\<open>encoding.decode\<close> may hand back (\<^verbatim>\<open>decResult: any\<close>); the last variant carries what
  \<^verbatim>\<open>String(decResult)\<close> does.
\<close>

datatype raw_text =
    TextString string
  | TextBytes "8 word list"
  | OtherText "exn + string"

text \<open>
  The value of a property read on the object literal \<^verbatim>\<open>ENCODING_MAP\<close>: one of the declared
  schemes, a member inherited from \<^verbatim>\<open>Object.prototype\<close> (an object literal has that
  prototype), or \<^verbatim>\<open>undefined\<close>.
\<close>

datatype js_prop = Scheme TiktokenEncoding | Inherited string | Undefined

record env =
  get_encoding :: "nat \<Rightarrow> js_prop \<Rightarrow> exn + Tiktoken"
  tk_encode :: "Tiktoken \<Rightarrow> string \<Rightarrow> exn + raw_tokens"
  tk_decode :: "Tiktoken \<Rightarrow> 32 word list \<Rightarrow> exn + raw_text"
  tk_has_free :: "Tiktoken \<Rightarrow> bool"
  tk_free :: "Tiktoken \<Rightarrow> exn option"
  performance_now :: "nat \<Rightarrow> rat"
  Date_now :: "nat \<Rightarrow> int"
  TextDecoder_utf8 :: "8 word list \<Rightarrow> string"
  double_minus :: "rat \<Rightarrow> rat \<Rightarrow> rat"
  toFixed2_parseFloat :: "rat \<Rightarrow> rat"

text \<open>
  \<open>get_encoding E n v\<close> is the outcome of the \<open>n\<close>-th call of \<^verbatim>\<open>get_encoding\<close> in the run, on
  the argument \<open>v\<close>; \<open>performance_now E n\<close> and \<open>Date_now E n\<close> are the \<open>n\<close>-th readings of the
  two clocks; \<open>tk_free E h\<close> is \<open>None\<close> when \<^verbatim>\<open>h.free()\<close> returns and \<open>Some e\<close> when it throws.
  \<open>double_minus E a b\<close> is \<^verbatim>\<open>a - b\<close> as the runtime computes it on doubles (the exact
  difference rounded to a double), and \<open>toFixed2_parseFloat E x\<close> is
  \<^verbatim>\<open>parseFloat(x.toFixed(2))\<close>.
\<close>

section \<open>Types and module state\<close>

record TokenizerResult =
  tokens :: nat
  timeMs :: rat

record TiktokenCacheEntry =
  encoding :: Tiktoken
  model :: string
  loadedAt :: int

text \<open>
  \<^verbatim>\<open>tiktokenCache\<close> is a \<^verbatim>\<open>Map\<close>: an association list in insertion order.
  \<^verbatim>\<open>llamaTokenizerCache\<close> holds two closures over one encoder; the encoder stands for them.
  The remaining fields count the calls made to the environment and log the encoders
  released.
\<close>

record state =
  tiktokenCache :: "(string \<times> TiktokenCacheEntry) list"
  llamaTokenizerCache :: "Tiktoken option"
  encodings_made :: nat
  freed :: "Tiktoken list"
  perf_reads :: nat
  date_reads :: nat

definition initial_state :: state where
  "initial_state = \<lparr>tiktokenCache = [], llamaTokenizerCache = None, encodings_made = 0,
     freed = [], perf_reads = 0, date_reads = 0\<rparr>"

subsection \<open>The operations of a Map\<close>

definition Map_has :: "(string \<times> 'v) list \<Rightarrow> string \<Rightarrow> bool" where
  "Map_has m k = (k \<in> set (map fst m))"

definition Map_get :: "(string \<times> 'v) list \<Rightarrow> string \<Rightarrow> 'v option" where
  "Map_get m k = map_of m k"

fun Map_set :: "(string \<times> 'v) list \<Rightarrow> string \<Rightarrow> 'v \<Rightarrow> (string \<times> 'v) list" where
  "Map_set [] k v = [(k, v)]"
| "Map_set ((k', v') # m) k v = (if k' = k then (k, v) # m else (k', v') # Map_set m k v)"

definition Map_delete :: "(string \<times> 'v) list \<Rightarrow> string \<Rightarrow> (string \<times> 'v) list" where
  "Map_delete m k = filter (\<lambda>kv. fst kv \<noteq> k) m"

subsection \<open>String operations of the runtime\<close>

definition toLowerCase_unit :: "char \<Rightarrow> char" where
  "toLowerCase_unit c =
     (let n = (of_char c :: nat)
      in if (65 \<le> n \<and> n \<le> 90) \<or> (192 \<le> n \<and> n \<le> 222 \<and> n \<noteq> 215)
         then char_of (n + 32) else c)"

definition toLowerCase :: "string \<Rightarrow> string" where
  "toLowerCase s = map toLowerCase_unit s"

fun startsWith :: "string \<Rightarrow> string \<Rightarrow> bool" where
  "startsWith s [] = True"
| "startsWith [] (p # ps) = False"
| "startsWith (c # cs) (p # ps) = (c = p \<and> startsWith cs ps)"

fun includes_str :: "string \<Rightarrow> string \<Rightarrow> bool" where
  "includes_str [] p = (p = [])"
| "includes_str (c # cs) p = (startsWith (c # cs) p \<or> includes_str cs p)"

section \<open>Util helpers\<close>

definition nowMs :: "env \<Rightarrow> state \<Rightarrow> rat \<times> state" where
  "nowMs E w = (performance_now E (perf_reads w), w\<lparr>perf_reads := Suc (perf_reads w)\<rparr>)"

definition Date_now_read :: "env \<Rightarrow> state \<Rightarrow> int \<times> state" where
  "Date_now_read E w = (Date_now E (date_reads w), w\<lparr>date_reads := Suc (date_reads w)\<rparr>)"

text \<open>\<^verbatim>\<open>parseFloat((stop - start).toFixed(2))\<close>\<close>

definition elapsed :: "env \<Rightarrow> rat \<Rightarrow> rat \<Rightarrow> rat" where
  "elapsed E start stop = toFixed2_parseFloat E (double_minus E stop start)"

fun Array_from :: "raw_tokens \<Rightarrow> exn + int list" where
  "Array_from (JsArray xs) = Inr xs"
| "Array_from (Uint32Array ws) = Inr (map uint ws)"
| "Array_from (Uint16Array ws) = Inr (map uint ws)"
| "Array_from (Uint8Array ws) = Inr (map uint ws)"
| "Array_from (OtherTokens r) = r"

fun isArray :: "raw_tokens \<Rightarrow> bool" where
  "isArray (JsArray xs) = True"
| "isArray _ = False"

fun isUintBuffer :: "raw_tokens \<Rightarrow> bool" where
  "isUintBuffer (Uint32Array ws) = True"
| "isUintBuffer (Uint16Array ws) = True"
| "isUintBuffer (Uint8Array ws) = True"
| "isUintBuffer _ = False"

definition normalizeEncodeResult :: "raw_tokens \<Rightarrow> exn + int list" where
  "normalizeEncodeResult encResult =
     (if isArray encResult then (case encResult of JsArray xs \<Rightarrow> Inr xs | _ \<Rightarrow> Array_from encResult)
      else if isUintBuffer encResult then Array_from encResult
      else (case Array_from encResult of Inr xs \<Rightarrow> Inr xs | Inl e \<Rightarrow> Inr []))"

definition normalizeDecodeResult :: "env \<Rightarrow> raw_text \<Rightarrow> exn + string" where
  "normalizeDecodeResult E decResult =
     (case decResult of
        TextString s \<Rightarrow> Inr s
      | TextBytes bs \<Rightarrow> Inr (TextDecoder_utf8 E bs)
      | OtherText r \<Rightarrow> (case r of Inr s \<Rightarrow> Inr s | Inl e \<Rightarrow> Inr []))"

text \<open>\<^verbatim>\<open>new Uint32Array(tokens)\<close>: every number is taken modulo \<open>2 ^ 32\<close>.\<close>

definition new_Uint32Array :: "int list \<Rightarrow> 32 word list" where
  "new_Uint32Array xs = map word_of_int xs"

section \<open>ENCODING MAP\<close>

definition ENCODING_MAP :: "(string \<times> TiktokenEncoding) list" where
  "ENCODING_MAP =
     [(''gpt-4'', cl100k_base),
      (''gpt-4-turbo'', cl100k_base),
      (''gpt-4o'', o200k_base),
      (''gpt-4o-mini'', o200k_base),
      (''gpt-3.5-turbo'', cl100k_base),
      (''gpt-3.5-turbo-16k'', cl100k_base),
      (''text-embedding-ada-002'', cl100k_base),
      (''text-embedding-3-small'', cl100k_base),
      (''text-embedding-3-large'', cl100k_base),
      (''text-davinci-003'', p50k_base),
      (''text-davinci-002'', p50k_base),
      (''davinci'', r50k_base),
      (''curie'', r50k_base),
      (''babbage'', r50k_base),
      (''ada'', r50k_base)]"

text \<open>The members every object literal inherits from \<^verbatim>\<open>Object.prototype\<close>.\<close>

definition Object_prototype_members :: "string list" where
  "Object_prototype_members =
     [''constructor'', ''__defineGetter__'', ''__defineSetter__'', ''hasOwnProperty'',
      ''__lookupGetter__'', ''__lookupSetter__'', ''isPrototypeOf'', ''propertyIsEnumerable'',
      ''toString'', ''valueOf'', ''__proto__'', ''toLocaleString'']"

text \<open>\<^verbatim>\<open>ENCODING_MAP[k]\<close>: the own property first, then the prototype.\<close>

definition ENCODING_MAP_read :: "string \<Rightarrow> js_prop" where
  "ENCODING_MAP_read k =
     (case map_of ENCODING_MAP k of
        Some e \<Rightarrow> Scheme e
      | None \<Rightarrow> if k \<in> set Object_prototype_members then Inherited k else Undefined)"

fun truthy :: "js_prop \<Rightarrow> bool" where
  "truthy (Scheme e) = True"
| "truthy (Inherited k) = True"
| "truthy Undefined = False"

definition js_or :: "js_prop \<Rightarrow> js_prop \<Rightarrow> js_prop" where
  "js_or a b = (if truthy a then a else b)"

text \<open>
  The local \<^verbatim>\<open>encodingName\<close> of \<^verbatim>\<open>loadTiktoken\<close>:
  \<^verbatim>\<open>ENCODING_MAP[key] || ENCODING_MAP[model] || "cl100k_base"\<close>.
\<close>

definition encodingName :: "string \<Rightarrow> js_prop" where
  "encodingName modelId =
     (let key = toLowerCase modelId
      in js_or (js_or (ENCODING_MAP_read key) (ENCODING_MAP_read modelId)) (Scheme cl100k_base))"

section \<open>loadTiktoken\<close>

definition call_get_encoding :: "env \<Rightarrow> js_prop \<Rightarrow> state \<Rightarrow> (exn + Tiktoken) \<times> state" where
  "call_get_encoding E v w =
     (get_encoding E (encodings_made w) v, w\<lparr>encodings_made := Suc (encodings_made w)\<rparr>)"

definition loadTiktoken :: "env \<Rightarrow> string \<Rightarrow> state \<Rightarrow> (exn + Tiktoken) \<times> state" where
  "loadTiktoken E modelId w =
     (let (start, w1) = nowMs E w;
          key = toLowerCase modelId
      in if Map_has (tiktokenCache w1) key
         then (case Map_get (tiktokenCache w1) key of
                 Some entry \<Rightarrow> (Inr (encoding entry), w1)
               | None \<Rightarrow> (Inl (Thrown ''TypeError''), w1))
         else (case call_get_encoding E (encodingName modelId) w1 of
                 (Inl err, w2) \<Rightarrow> (Inl err, w2)
               | (Inr enc, w2) \<Rightarrow>
                   (let (t, w3) = Date_now_read E w2
                    in (Inr enc,
                        w3\<lparr>tiktokenCache :=
                             Map_set (tiktokenCache w3) key
                               \<lparr>encoding = enc, model = modelId, loadedAt = t\<rparr>\<rparr>))))"

section \<open>loadLlamaTokenizer\<close>

definition loadLlamaTokenizer :: "env \<Rightarrow> state \<Rightarrow> (exn + Tiktoken) \<times> state" where
  "loadLlamaTokenizer E w =
     (case llamaTokenizerCache w of
        Some t \<Rightarrow> (Inr t, w)
      | None \<Rightarrow>
          (case call_get_encoding E (Scheme cl100k_base) w of
             (Inl err, w1) \<Rightarrow> (Inl err, w1)
           | (Inr enc, w1) \<Rightarrow> (Inr enc, w1\<lparr>llamaTokenizerCache := Some enc\<rparr>)))"

text \<open>The two closures stored in the singleton, over the encoder \<open>enc\<close>.\<close>

definition llama_encode :: "env \<Rightarrow> Tiktoken \<Rightarrow> string \<Rightarrow> exn + int list" where
  "llama_encode E enc text =
     (case tk_encode E enc text of Inl e \<Rightarrow> Inl e | Inr raw \<Rightarrow> normalizeEncodeResult raw)"

definition llama_decode :: "env \<Rightarrow> Tiktoken \<Rightarrow> int list \<Rightarrow> string" where
  "llama_decode E enc toks =
     (case tk_decode E enc (new_Uint32Array toks) of
        Inl err \<Rightarrow> []
      | Inr decoded \<Rightarrow> (case normalizeDecodeResult E decoded of Inl err \<Rightarrow> [] | Inr s \<Rightarrow> s))"

section \<open>countTokensWithTiktoken and countTokensWithLlama\<close>

text \<open>\<^verbatim>\<open>Math.max(1, Math.ceil(text.length / 4))\<close>\<close>

definition fallback_estimate :: "string \<Rightarrow> nat" where
  "fallback_estimate text = max 1 (nat \<lceil>(of_nat (length text) :: rat) / 4\<rceil>)"

text \<open>The body of the \<^verbatim>\<open>try\<close> block, up to the token count.\<close>

definition tiktoken_try :: "env \<Rightarrow> string \<Rightarrow> string \<Rightarrow> state \<Rightarrow> (exn + nat) \<times> state" where
  "tiktoken_try E text modelId w =
     (case loadTiktoken E modelId w of
        (Inl err, w1) \<Rightarrow> (Inl err, w1)
      | (Inr enc, w1) \<Rightarrow>
          (case tk_encode E enc text of
             Inl err \<Rightarrow> (Inl err, w1)
           | Inr raw \<Rightarrow>
               (case normalizeEncodeResult raw of
                  Inl err \<Rightarrow> (Inl err, w1)
                | Inr toks \<Rightarrow> (Inr (length toks), w1))))"

definition finish :: "env \<Rightarrow> rat \<Rightarrow> nat \<Rightarrow> state \<Rightarrow> (exn + TokenizerResult) \<times> state" where
  "finish E start n w =
     (let (stop, w1) = nowMs E w
      in (Inr \<lparr>tokens = n, timeMs = elapsed E start stop\<rparr>, w1))"

definition countTokensWithTiktoken ::
  "env \<Rightarrow> string \<Rightarrow> string \<Rightarrow> state \<Rightarrow> (exn + TokenizerResult) \<times> state" where
  "countTokensWithTiktoken E text modelId w =
     (let (start, w1) = nowMs E w
      in case tiktoken_try E text modelId w1 of
           (Inr n, w2) \<Rightarrow> finish E start n w2
         | (Inl err, w2) \<Rightarrow> finish E start (fallback_estimate text) w2)"

definition llama_try :: "env \<Rightarrow> string \<Rightarrow> state \<Rightarrow> (exn + nat) \<times> state" where
  "llama_try E text w =
     (case loadLlamaTokenizer E w of
        (Inl err, w1) \<Rightarrow> (Inl err, w1)
      | (Inr tokenizer, w1) \<Rightarrow>
          (case llama_encode E tokenizer text of
             Inl err \<Rightarrow> (Inl err, w1)
           | Inr toks \<Rightarrow> (Inr (length toks), w1)))"

definition countTokensWithLlama ::
  "env \<Rightarrow> string \<Rightarrow> state \<Rightarrow> (exn + TokenizerResult) \<times> state" where
  "countTokensWithLlama E text w =
     (let (start, w1) = nowMs E w
      in case llama_try E text w1 of
           (Inr n, w2) \<Rightarrow> finish E start n w2
         | (Inl err, w2) \<Rightarrow> finish E start (fallback_estimate text) w2)"

section \<open>Auto detect and route\<close>

definition OPENAI_PREFIXES :: "string list" where
  "OPENAI_PREFIXES = [''gpt'', ''text-'', ''davinci'', ''curie'', ''babbage'', ''ada'']"

definition LLAMA_PREFIXES :: "string list" where
  "LLAMA_PREFIXES = [''llama'', ''mistral'', ''mixtral'', ''codellama'', ''vicuna'', ''alpaca'']"

definition isOpenAI :: "string \<Rightarrow> bool" where
  "isOpenAI lower = list_ex (\<lambda>p. includes_str lower p) OPENAI_PREFIXES"

definition isLlama :: "string \<Rightarrow> bool" where
  "isLlama lower = list_ex (\<lambda>p. includes_str lower p) LLAMA_PREFIXES"

definition countTokensAuto ::
  "env \<Rightarrow> string \<Rightarrow> string \<Rightarrow> state \<Rightarrow> (exn + TokenizerResult) \<times> state" where
  "countTokensAuto E text modelId w =
     (let (start, w1) = nowMs E w;
          lower = toLowerCase modelId
      in case (if isOpenAI lower then countTokensWithTiktoken E text modelId w1
               else if isLlama lower then countTokensWithLlama E text w1
               else countTokensWithTiktoken E text ''gpt-4'' w1) of
           (Inl err, w2) \<Rightarrow> (Inl err, w2)
         | (Inr res, w2) \<Rightarrow> finish E start (tokens res) w2)"

section \<open>countChatTokens\<close>

record ChatMessage =
  role :: string
  content :: string

text \<open>\<^verbatim>\<open>normalizeEncodeResult(encoding.encode(s)).length\<close>\<close>

definition encoded_length :: "env \<Rightarrow> Tiktoken \<Rightarrow> string \<Rightarrow> exn + nat" where
  "encoded_length E enc s =
     (case tk_encode E enc s of
        Inl err \<Rightarrow> Inl err
      | Inr raw \<Rightarrow> (case normalizeEncodeResult raw of Inl err \<Rightarrow> Inl err | Inr toks \<Rightarrow> Inr (length toks)))"

fun chat_loop :: "env \<Rightarrow> Tiktoken \<Rightarrow> ChatMessage list \<Rightarrow> nat \<Rightarrow> exn + nat" where
  "chat_loop E enc [] acc = Inr acc"
| "chat_loop E enc (m # ms) acc =
     (case encoded_length E enc (role m) of
        Inl err \<Rightarrow> Inl err
      | Inr r \<Rightarrow>
          (case encoded_length E enc (content m) of
             Inl err \<Rightarrow> Inl err
           | Inr c \<Rightarrow> chat_loop E enc ms (acc + 4 + r + c)))"

definition countChatTokens ::
  "env \<Rightarrow> ChatMessage list \<Rightarrow> string \<Rightarrow> state \<Rightarrow> (exn + nat) \<times> state" where
  "countChatTokens E messages modelId w =
     (case loadTiktoken E modelId w of
        (Inl err, w1) \<Rightarrow> (Inl err, w1)
      | (Inr enc, w1) \<Rightarrow> (chat_loop E enc messages 3, w1))"

section \<open>Cache diagnostics\<close>

record CacheStats =
  tiktokenEntries :: nat
  llamaLoaded :: bool
  models :: "string list"
  oldestEntry :: "int option"

text \<open>\<^verbatim>\<open>Math.min(...xs)\<close> on a list that is not empty.\<close>

fun Math_min :: "int \<Rightarrow> int list \<Rightarrow> int" where
  "Math_min x [] = x"
| "Math_min x (y # ys) = Math_min (min x y) ys"

definition getCacheStats :: "state \<Rightarrow> CacheStats \<times> state" where
  "getCacheStats w =
     (let keys = map fst (tiktokenCache w);
          oldest = (if length keys \<noteq> 0
                    then (case map (\<lambda>kv. loadedAt (snd kv)) (tiktokenCache w) of
                            [] \<Rightarrow> None
                          | x # xs \<Rightarrow> Some (Math_min x xs))
                    else None)
      in (\<lparr>tiktokenEntries = length (tiktokenCache w),
           llamaLoaded = (llamaTokenizerCache w \<noteq> None),
           models = keys,
           oldestEntry = oldest\<rparr>, w))"

section \<open>Clear cache\<close>

text \<open>
  One turn of the loop of \<^verbatim>\<open>clearTokenizerCache\<close>: release the encoder when it has a
  \<^verbatim>\<open>free\<close> function (a throw of \<^verbatim>\<open>free\<close> is ignored), then delete the key.
\<close>

definition release_entry :: "env \<Rightarrow> TiktokenCacheEntry \<Rightarrow> state \<Rightarrow> state" where
  "release_entry E entry w =
     (if tk_has_free E (encoding entry)
      then (case tk_free E (encoding entry) of
              None \<Rightarrow> w\<lparr>freed := freed w @ [encoding entry]\<rparr>
            | Some err \<Rightarrow> w)
      else w)"

fun clear_loop :: "env \<Rightarrow> (string \<times> TiktokenCacheEntry) list \<Rightarrow> state \<Rightarrow> state" where
  "clear_loop E [] w = w"
| "clear_loop E ((k, entry) # rest) w =
     clear_loop E rest
       (let w1 = release_entry E entry w
        in w1\<lparr>tiktokenCache := Map_delete (tiktokenCache w1) k\<rparr>)"

definition clearTokenizerCache :: "env \<Rightarrow> state \<Rightarrow> state" where
  "clearTokenizerCache E w =
     (clear_loop E (tiktokenCache w) w)\<lparr>llamaTokenizerCache := None\<rparr>"

section \<open>Dev helper: roundtrip test\<close>

definition roundtrip_try :: "env \<Rightarrow> string \<Rightarrow> string \<Rightarrow> state \<Rightarrow> (exn + bool) \<times> state" where
  "roundtrip_try E text modelId w =
     (case loadTiktoken E modelId w of
        (Inl err, w1) \<Rightarrow> (Inl err, w1)
      | (Inr enc, w1) \<Rightarrow>
          (case tk_encode E enc text of
             Inl err \<Rightarrow> (Inl err, w1)
           | Inr raw \<Rightarrow>
               (case normalizeEncodeResult raw of
                  Inl err \<Rightarrow> (Inl err, w1)
                | Inr arr \<Rightarrow>
                    (case tk_decode E enc (new_Uint32Array arr) of
                       Inl err \<Rightarrow> (Inl err, w1)
                     | Inr decodedRaw \<Rightarrow>
                         (case normalizeDecodeResult E decodedRaw of
                            Inl err \<Rightarrow> (Inl err, w1)
                          | Inr decoded \<Rightarrow> (Inr (decoded = text), w1))))))"

definition assertEncodeDecodeRoundtrip ::
  "env \<Rightarrow> string \<Rightarrow> string \<Rightarrow> state \<Rightarrow> (exn + bool) \<times> state" where
  "assertEncodeDecodeRoundtrip E text modelId w =
     (case roundtrip_try E text modelId w of
        (Inr b, w1) \<Rightarrow> (Inr b, w1)
      | (Inl err, w1) \<Rightarrow> (Inr False, w1))"

section \<open>Concrete environments\<close>

text \<open>
  \<open>E_ok\<close>: every scheme can be instantiated (the \<open>n\<close>-th call makes the encoder \<open>n\<close>), any
  other argument of \<^verbatim>\<open>get_encoding\<close> throws; \<^verbatim>\<open>encode\<close> yields one token per code unit in a
  \<^verbatim>\<open>Uint32Array\<close> and throws on a text that holds the special token \<^verbatim>\<open><|endoftext|>\<close>, as the
  package does by default; \<^verbatim>\<open>decode\<close> yields the bytes back. The clock advances by 1.25 ms
  with every reading: on such readings the difference of two doubles is exact and
  \<^verbatim>\<open>toFixed(2)\<close> changes nothing, which is what the last two fields compute there.
  \<open>E_down\<close>: no encoder can be instantiated.
\<close>

definition nearest_hundredth :: "rat \<Rightarrow> rat" where
  "nearest_hundredth x =
     (if x < 0 then - (of_int \<lfloor>(- x) * 100 + 1 / 2\<rfloor> / 100)
      else of_int \<lfloor>x * 100 + 1 / 2\<rfloor> / 100)"

definition E_ok :: env where
  "E_ok =
     \<lparr>get_encoding = (\<lambda>n v. case v of Scheme e \<Rightarrow> Inr n | _ \<Rightarrow> Inl (Thrown ''invalid encoding'')),
      tk_encode = (\<lambda>h s. if includes_str s ''<|endoftext|>'' then Inl (Thrown ''special token'')
                          else Inr (Uint32Array (map (\<lambda>c. of_nat (of_char c)) s))),
      tk_decode = (\<lambda>h ws. Inr (TextBytes (map (\<lambda>w. of_nat (unat w)) ws))),
      tk_has_free = (\<lambda>h. True),
      tk_free = (\<lambda>h. None),
      performance_now = (\<lambda>n. of_nat n * (5 / 4)),
      Date_now = (\<lambda>n. 1700000000000 + int n),
      TextDecoder_utf8 = (\<lambda>bs. map (\<lambda>b. char_of (unat b)) bs),
      double_minus = (\<lambda>a b. a - b),
      toFixed2_parseFloat = nearest_hundredth\<rparr>"

definition E_down :: env where
  "E_down = E_ok\<lparr>get_encoding := (\<lambda>n v. Inl (Thrown ''wasm not ready''))\<rparr>"

text \<open>
  \<open>w_two\<close>: the state after loading \<^verbatim>\<open>"Ada"\<close> and \<^verbatim>\<open>"GPT-4"\<close> and counting once with the
  Llama approximation, all in \<open>E_ok\<close>.
\<close>

definition w_two :: state where
  "w_two = snd (countTokensWithLlama E_ok ''hi''
     (snd (loadTiktoken E_ok ''GPT-4'' (snd (loadTiktoken E_ok ''Ada'' initial_state)))))"

section \<open>The states the module can be in\<close>

text \<open>
  The module starts with an empty cache and no singleton, and its state changes only
  through the exported functions.
\<close>

inductive reachable :: "env \<Rightarrow> state \<Rightarrow> bool" for E :: env where
  initially: "reachable E initial_state"
| by_loadTiktoken: "reachable E w \<Longrightarrow> reachable E (snd (loadTiktoken E modelId w))"
| by_loadLlamaTokenizer: "reachable E w \<Longrightarrow> reachable E (snd (loadLlamaTokenizer E w))"
| by_countTokensWithTiktoken: "reachable E w \<Longrightarrow> reachable E (snd (countTokensWithTiktoken E txt modelId w))"
| by_countTokensWithLlama: "reachable E w \<Longrightarrow> reachable E (snd (countTokensWithLlama E txt w))"
| by_countTokensAuto: "reachable E w \<Longrightarrow> reachable E (snd (countTokensAuto E txt modelId w))"
| by_countChatTokens: "reachable E w \<Longrightarrow> reachable E (snd (countChatTokens E messages modelId w))"
| by_getCacheStats: "reachable E w \<Longrightarrow> reachable E (snd (getCacheStats w))"
| by_clearTokenizerCache: "reachable E w \<Longrightarrow> reachable E (clearTokenizerCache E w)"
| by_assertEncodeDecodeRoundtrip: "reachable E w \<Longrightarrow> reachable E (snd (assertEncodeDecodeRoundtrip E txt modelId w))"

text \<open>
  The shape of the cache: keys are pairwise different (it is a \<^verbatim>\<open>Map\<close>) and every entry
  sits under the lower-cased form of the identifier it records.
\<close>

definition cache_inv :: "state \<Rightarrow> bool" where
  "cache_inv w =
     (distinct (map fst (tiktokenCache w))
      \<and> list_all (\<lambda>kv. fst kv = toLowerCase (model (snd kv))) (tiktokenCache w))"

section \<open>Facts about the Map and the loader\<close>

lemma Map_has_get: "Map_has m k \<Longrightarrow> \<exists>v. Map_get m k = Some v"
  by (induction m) (auto simp: Map_has_def Map_get_def)

lemma Map_get_has: "Map_get m k = Some v \<Longrightarrow> Map_has m k"
  by (auto simp: Map_has_def Map_get_def dest: map_of_SomeD intro: rev_image_eqI)

lemma Map_set_absent: "\<not> Map_has m k \<Longrightarrow> Map_set m k v = m @ [(k, v)]"
  by (induction m) (auto simp: Map_has_def)

lemma Map_get_appended: "\<not> Map_has m k \<Longrightarrow> Map_get (m @ [(k, v)]) k = Some v"
  by (induction m) (auto simp: Map_has_def Map_get_def)

lemma one_entry_per_key:
  "distinct (map fst xs) \<Longrightarrow> map_of xs k = Some v \<Longrightarrow> length (filter (\<lambda>kv. fst kv = k) xs) = 1"
  by (induction xs)
     (auto simp: filter_empty_conv rev_image_eqI dest: map_of_SomeD split: if_splits)

lemma ENCODING_MAP_keys_lower: "map_of ENCODING_MAP k = Some e \<Longrightarrow> toLowerCase k = k"
proof -
  have "list_all (\<lambda>kv. toLowerCase (fst kv) = fst kv) ENCODING_MAP"
    by code_simp
  moreover assume "map_of ENCODING_MAP k = Some e"
  then have "(k, e) \<in> set ENCODING_MAP" by (rule map_of_SomeD)
  ultimately show ?thesis by (auto simp: list_all_iff)
qed

lemma encodingName_table:
  "map_of ENCODING_MAP (toLowerCase m) = Some e \<Longrightarrow> encodingName m = Scheme e"
  by (simp add: encodingName_def ENCODING_MAP_read_def js_or_def)

lemma encodingName_default:
  assumes "map_of ENCODING_MAP (toLowerCase m) = None"
    and "toLowerCase m \<notin> set Object_prototype_members"
    and "m \<notin> set Object_prototype_members"
  shows "encodingName m = Scheme cl100k_base"
proof -
  have "map_of ENCODING_MAP m = None"
  proof (cases "map_of ENCODING_MAP m")
    case (Some e)
    then have "toLowerCase m = m" by (rule ENCODING_MAP_keys_lower)
    with assms(1) Some show ?thesis by simp
  qed simp
  with assms show ?thesis
    by (simp add: encodingName_def ENCODING_MAP_read_def js_or_def)
qed

lemma loadTiktoken_hit:
  assumes "Map_get (tiktokenCache w) (toLowerCase m) = Some entry"
  shows "loadTiktoken E m w = (Inr (encoding entry), w\<lparr>perf_reads := Suc (perf_reads w)\<rparr>)"
  using assms Map_get_has [OF assms] by (simp add: loadTiktoken_def nowMs_def)

lemma loadTiktoken_miss_fail:
  assumes "\<not> Map_has (tiktokenCache w) (toLowerCase m)"
    and "get_encoding E (encodings_made w) (encodingName m) = Inl err"
  shows "loadTiktoken E m w =
    (Inl err, w\<lparr>perf_reads := Suc (perf_reads w), encodings_made := Suc (encodings_made w)\<rparr>)"
  using assms by (simp add: loadTiktoken_def nowMs_def call_get_encoding_def)

lemma loadTiktoken_miss_ok:
  assumes "\<not> Map_has (tiktokenCache w) (toLowerCase m)"
    and "get_encoding E (encodings_made w) (encodingName m) = Inr enc"
  shows "loadTiktoken E m w =
    (Inr enc, w\<lparr>perf_reads := Suc (perf_reads w), encodings_made := Suc (encodings_made w),
        date_reads := Suc (date_reads w),
        tiktokenCache := tiktokenCache w @
          [(toLowerCase m, \<lparr>encoding = enc, model = m, loadedAt = Date_now E (date_reads w)\<rparr>)]\<rparr>)"
  using assms
  by (simp add: loadTiktoken_def nowMs_def call_get_encoding_def Date_now_read_def Map_set_absent)

lemma loadTiktoken_cases:
  obtains (hit) entry where "Map_get (tiktokenCache w) (toLowerCase m) = Some entry"
  | (fail) err where "\<not> Map_has (tiktokenCache w) (toLowerCase m)"
      "get_encoding E (encodings_made w) (encodingName m) = Inl err"
  | (ok) enc where "\<not> Map_has (tiktokenCache w) (toLowerCase m)"
      "get_encoding E (encodings_made w) (encodingName m) = Inr enc"
proof (cases "Map_has (tiktokenCache w) (toLowerCase m)")
  case True
  then show ?thesis using Map_has_get hit by blast
next
  case False
  then show ?thesis
    using fail ok by (cases "get_encoding E (encodings_made w) (encodingName m)") auto
qed

section \<open>Facts about the clock and the two strategies\<close>









lemma includes_str_iff: "includes_str s p \<longleftrightarrow> (\<exists>a b. s = a @ p @ b)"
proof -
  have sw: "startsWith s p \<longleftrightarrow> (\<exists>b. s = p @ b)" for s p
    by (induction s p rule: startsWith.induct) auto
  show ?thesis
  proof (induction s)
    case Nil
    then show ?case by auto
  next
    case (Cons c cs)
    show ?case
    proof
      assume "includes_str (c # cs) p"
      then consider "startsWith (c # cs) p" | "includes_str cs p" by auto
      then show "\<exists>a b. c # cs = a @ p @ b"
      proof cases
        case 1
        then obtain b where "c # cs = p @ b" using sw by blast
        then have "c # cs = [] @ p @ b" by simp
        then show ?thesis by blast
      next
        case 2
        then obtain a b where "cs = a @ p @ b" using Cons.IH by blast
        then have "c # cs = (c # a) @ p @ b" by simp
        then show ?thesis by blast
      qed
    next
      assume "\<exists>a b. c # cs = a @ p @ b"
      then obtain a b where ab: "c # cs = a @ p @ b" by blast
      show "includes_str (c # cs) p"
      proof (cases a)
        case Nil
        with ab have "startsWith (c # cs) p" using sw by auto
        then show ?thesis by simp
      next
        case (Cons x xs)
        with ab have "cs = xs @ p @ b" by simp
        then have "includes_str cs p" using Cons.IH by blast
        then show ?thesis by simp
      qed
    qed
  qed
qed

lemma loadTiktoken_clock:
  "loadTiktoken E m (w\<lparr>perf_reads := k\<rparr>) =
     (fst (loadTiktoken E m w), (snd (loadTiktoken E m w))\<lparr>perf_reads := Suc k\<rparr>)"
  by (cases rule: loadTiktoken_cases [where w = w and m = m and E = E])
     (simp_all add: loadTiktoken_hit loadTiktoken_miss_fail loadTiktoken_miss_ok)

lemma loadLlamaTokenizer_clock:
  "loadLlamaTokenizer E (w\<lparr>perf_reads := k\<rparr>) =
     (fst (loadLlamaTokenizer E w), (snd (loadLlamaTokenizer E w))\<lparr>perf_reads := k\<rparr>)"
  by (auto simp: loadLlamaTokenizer_def call_get_encoding_def split: option.splits sum.splits)

lemma tiktoken_try_clock:
  "tiktoken_try E text m (w\<lparr>perf_reads := k\<rparr>) =
     (fst (tiktoken_try E text m w), (snd (tiktoken_try E text m w))\<lparr>perf_reads := Suc k\<rparr>)"
  by (auto simp: tiktoken_try_def loadTiktoken_clock split: prod.splits sum.splits)

lemma llama_try_clock:
  "llama_try E text (w\<lparr>perf_reads := k\<rparr>) =
     (fst (llama_try E text w), (snd (llama_try E text w))\<lparr>perf_reads := k\<rparr>)"
  by (auto simp: llama_try_def loadLlamaTokenizer_clock split: prod.splits sum.splits)

lemma countTokensWithTiktoken_eq:
  "countTokensWithTiktoken E text m w =
     (Inr \<lparr>tokens = (case fst (tiktoken_try E text m w) of
                      Inr n \<Rightarrow> n | Inl err \<Rightarrow> fallback_estimate text),
          timeMs = elapsed E (performance_now E (perf_reads w))
      (performance_now E (perf_reads w + 2))\<rparr>,
      (snd (tiktoken_try E text m w))\<lparr>perf_reads := perf_reads w + 3\<rparr>)"
  by (auto simp: countTokensWithTiktoken_def finish_def nowMs_def tiktoken_try_clock
      split: prod.splits sum.splits)

lemma countTokensWithLlama_eq:
  "countTokensWithLlama E text w =
     (Inr \<lparr>tokens = (case fst (llama_try E text w) of
                      Inr n \<Rightarrow> n | Inl err \<Rightarrow> fallback_estimate text),
          timeMs = elapsed E (performance_now E (perf_reads w))
      (performance_now E (perf_reads w + 1))\<rparr>,
      (snd (llama_try E text w))\<lparr>perf_reads := perf_reads w + 2\<rparr>)"
  by (auto simp: countTokensWithLlama_def finish_def nowMs_def llama_try_clock
      split: prod.splits sum.splits)

lemma countTokensWithTiktoken_clock:
  "countTokensWithTiktoken E text m (w\<lparr>perf_reads := k\<rparr>) =
     (Inr \<lparr>tokens = (case fst (tiktoken_try E text m w) of
                      Inr n \<Rightarrow> n | Inl err \<Rightarrow> fallback_estimate text),
          timeMs = elapsed E (performance_now E k)
      (performance_now E (k + 2))\<rparr>,
      (snd (tiktoken_try E text m w))\<lparr>perf_reads := k + 3\<rparr>)"
  by (simp add: countTokensWithTiktoken_eq tiktoken_try_clock)

lemma countTokensWithLlama_clock:
  "countTokensWithLlama E text (w\<lparr>perf_reads := k\<rparr>) =
     (Inr \<lparr>tokens = (case fst (llama_try E text w) of
                      Inr n \<Rightarrow> n | Inl err \<Rightarrow> fallback_estimate text),
          timeMs = elapsed E (performance_now E k)
      (performance_now E (k + 1))\<rparr>,
      (snd (llama_try E text w))\<lparr>perf_reads := k + 2\<rparr>)"
  by (simp add: countTokensWithLlama_eq llama_try_clock)

lemma isOpenAI_substrings:
  "isOpenAI l = (includes_str l ''gpt'' \<or> includes_str l ''text-'' \<or> includes_str l ''davinci''
     \<or> includes_str l ''curie'' \<or> includes_str l ''babbage'' \<or> includes_str l ''ada'')"
  by (simp add: isOpenAI_def OPENAI_PREFIXES_def)

lemma isLlama_substrings:
  "isLlama l = (includes_str l ''llama'' \<or> includes_str l ''mistral'' \<or> includes_str l ''mixtral''
     \<or> includes_str l ''codellama'' \<or> includes_str l ''vicuna'' \<or> includes_str l ''alpaca'')"
  by (simp add: isLlama_def LLAMA_PREFIXES_def)

lemma chat_loop_sum:
  assumes "\<forall>msg\<in>set msgs. encoded_length E enc (role msg) = Inr (n (role msg))
             \<and> encoded_length E enc (content msg) = Inr (n (content msg))"
  shows "chat_loop E enc msgs acc = Inr (acc + (\<Sum>msg\<leftarrow>msgs. 4 + n (role msg) + n (content msg)))"
  using assms by (induction msgs arbitrary: acc) (simp_all add: add.assoc)

section \<open>Facts about the cache of reachable states\<close>

lemma toLowerCase_unit_idem: "toLowerCase_unit (toLowerCase_unit c) = toLowerCase_unit c"
proof -
  have "of_char c < (256::nat)" by simp
  then show ?thesis
    by (auto simp: toLowerCase_unit_def Let_def)
qed

lemma toLowerCase_idem: "toLowerCase (toLowerCase s) = toLowerCase s"
  by (simp add: toLowerCase_def toLowerCase_unit_idem)

lemma cache_inv_loadTiktoken: "cache_inv w \<Longrightarrow> cache_inv (snd (loadTiktoken E m w))"
  by (cases rule: loadTiktoken_cases [where w = w and m = m and E = E])
     (auto simp: loadTiktoken_hit loadTiktoken_miss_fail loadTiktoken_miss_ok cache_inv_def Map_has_def)

lemma loadTiktoken_llama: "llamaTokenizerCache (snd (loadTiktoken E m w)) = llamaTokenizerCache w"
  by (cases rule: loadTiktoken_cases [where w = w and m = m and E = E])
     (auto simp: loadTiktoken_hit loadTiktoken_miss_fail loadTiktoken_miss_ok)

lemma loadLlamaTokenizer_cache:
  "tiktokenCache (snd (loadLlamaTokenizer E w)) = tiktokenCache w"
  by (auto simp: loadLlamaTokenizer_def call_get_encoding_def split: option.splits sum.splits)

lemma tiktoken_try_state: "snd (tiktoken_try E text m w) = snd (loadTiktoken E m w)"
  by (auto simp: tiktoken_try_def split: prod.splits sum.splits)

lemma llama_try_state: "snd (llama_try E text w) = snd (loadLlamaTokenizer E w)"
  by (auto simp: llama_try_def split: prod.splits sum.splits)

lemma clear_loop_fields:
  "tiktokenCache (clear_loop E es w) = filter (\<lambda>kv. fst kv \<notin> fst ` set es) (tiktokenCache w)
   \<and> llamaTokenizerCache (clear_loop E es w) = llamaTokenizerCache w
   \<and> encodings_made (clear_loop E es w) = encodings_made w
   \<and> perf_reads (clear_loop E es w) = perf_reads w
   \<and> date_reads (clear_loop E es w) = date_reads w"
proof (induction es arbitrary: w)
  case Nil
  then show ?case by simp
next
  case (Cons a es)
  obtain k entry where a: "a = (k, entry)" by (cases a)
  have "filter (\<lambda>kv. fst kv \<notin> fst ` set es) (filter (\<lambda>kv. fst kv \<noteq> k) xs)
      = filter (\<lambda>kv. fst kv \<noteq> k \<and> fst kv \<notin> fst ` set es) xs" for xs :: "(string \<times> TiktokenCacheEntry) list"
    by (induction xs) auto
  then show ?case
    unfolding a by (simp add: Cons.IH Let_def Map_delete_def release_entry_def split: option.splits)
qed

lemma clearTokenizerCache_cache [simp]: "tiktokenCache (clearTokenizerCache E w) = []"
  by (simp add: clearTokenizerCache_def clear_loop_fields filter_empty_conv)

lemma clearTokenizerCache_llama [simp]: "llamaTokenizerCache (clearTokenizerCache E w) = None"
  by (simp add: clearTokenizerCache_def)

lemma clearTokenizerCache_counters [simp]:
  "encodings_made (clearTokenizerCache E w) = encodings_made w"
  "date_reads (clearTokenizerCache E w) = date_reads w"
  "perf_reads (clearTokenizerCache E w) = perf_reads w"
  by (simp_all add: clearTokenizerCache_def clear_loop_fields)

lemma reachable_cache_inv: "reachable E w \<Longrightarrow> cache_inv w"
proof (induction rule: reachable.induct)
  case initially
  then show ?case by (simp add: cache_inv_def initial_state_def)
next
  case (by_loadTiktoken w modelId)
  from by_loadTiktoken.IH show ?case by (rule cache_inv_loadTiktoken)
next
  case (by_loadLlamaTokenizer w)
  from by_loadLlamaTokenizer.IH show ?case by (simp add: cache_inv_def loadLlamaTokenizer_cache)
next
  case (by_countTokensWithTiktoken w tx modelId)
  from by_countTokensWithTiktoken.IH have "cache_inv (snd (loadTiktoken E modelId w))" by (rule cache_inv_loadTiktoken)
  then show ?case
    by (simp add: countTokensWithTiktoken_eq tiktoken_try_state cache_inv_def)
next
  case (by_countTokensWithLlama w tx)
  from by_countTokensWithLlama.IH show ?case
    by (simp add: countTokensWithLlama_eq llama_try_state cache_inv_def loadLlamaTokenizer_cache)
next
  case (by_countTokensAuto w tx modelId)
  have a: "cache_inv (snd (loadTiktoken E m w))" for m using by_countTokensAuto.IH by (rule cache_inv_loadTiktoken)
  show ?case
    using a [of modelId] a [of "''gpt-4''"] by_countTokensAuto.IH
    by (simp add: countTokensAuto_def Let_def nowMs_def finish_def countTokensWithTiktoken_clock
      countTokensWithLlama_clock tiktoken_try_state llama_try_state loadLlamaTokenizer_cache cache_inv_def)
next
  case (by_countChatTokens w messages modelId)
  from by_countChatTokens.IH have "cache_inv (snd (loadTiktoken E modelId w))" by (rule cache_inv_loadTiktoken)
  then show ?case
    by (auto simp: countChatTokens_def split: prod.splits sum.splits)
next
  case (by_getCacheStats w)
  from by_getCacheStats.IH show ?case by (simp add: getCacheStats_def Let_def)
next
  case (by_clearTokenizerCache w)
  then show ?case by (simp add: cache_inv_def)
next
  case (by_assertEncodeDecodeRoundtrip w tx modelId)
  from by_assertEncodeDecodeRoundtrip.IH have "cache_inv (snd (loadTiktoken E modelId w))" by (rule cache_inv_loadTiktoken)
  then show ?case
    by (auto simp: assertEncodeDecodeRoundtrip_def roundtrip_try_def split: prod.splits sum.splits)
qed

lemma Math_min_Min: "Math_min x xs = Min (set (x # xs))"
proof -
  have "Math_min x xs = fold min xs x"
    by (induction xs arbitrary: x) (simp_all add: min.commute)
  then show ?thesis using Min.set_eq_fold [of x xs] by simp
qed

lemma getCacheStats_eq:
  "getCacheStats w =
     (\<lparr>tiktokenEntries = length (tiktokenCache w),
       llamaLoaded = (llamaTokenizerCache w \<noteq> None),
       models = map fst (tiktokenCache w),
       oldestEntry = (if tiktokenCache w = [] then None
                      else Some (Min (set (map (\<lambda>kv. loadedAt (snd kv)) (tiktokenCache w)))))\<rparr>, w)"
  by (cases "tiktokenCache w") (simp_all add: getCacheStats_def Let_def Math_min_Min)




lemma toLowerCase_key: "cache_inv w \<Longrightarrow> k \<in> set (map fst (tiktokenCache w)) \<Longrightarrow> toLowerCase k = k"
  by (auto simp: cache_inv_def list_all_iff toLowerCase_idem)

lemma loadTiktoken_keys:
  "map fst (tiktokenCache (snd (loadTiktoken E m w))) =
     (if toLowerCase m \<in> set (map fst (tiktokenCache w)) \<or> isl (fst (loadTiktoken E m w))
      then map fst (tiktokenCache w)
      else map fst (tiktokenCache w) @ [toLowerCase m])"
  by (cases rule: loadTiktoken_cases [where w = w and m = m and E = E])
     (auto simp: loadTiktoken_hit loadTiktoken_miss_fail loadTiktoken_miss_ok Map_has_def
        dest: Map_get_has)

section \<open>The claims\<close>

text \<open>
  C8: \<^verbatim>\<open>normalizeEncodeResult\<close> never throws. An array comes back as it is; a \<^verbatim>\<open>Uint32Array\<close>,
  \<^verbatim>\<open>Uint16Array\<close> or \<^verbatim>\<open>Uint8Array\<close> comes back as the list of its elements read as plain
  integers; on any other value \<^verbatim>\<open>Array.from\<close> is tried, its result is returned when it
  returns and the empty list when it throws.
\<close>

theorem normalizeEncodeResult_total:
  "(\<exists>ys. normalizeEncodeResult raw = Inr ys)
   \<and> normalizeEncodeResult (JsArray xs) = Inr xs
   \<and> normalizeEncodeResult (Uint32Array w32) = Inr (map uint w32)
   \<and> normalizeEncodeResult (Uint16Array w16) = Inr (map uint w16)
   \<and> normalizeEncodeResult (Uint8Array w8) = Inr (map uint w8)
   \<and> normalizeEncodeResult (OtherTokens (Inr zs)) = Inr zs
   \<and> normalizeEncodeResult (OtherTokens (Inl e)) = Inr []"
proof -
  have "\<exists>ys. normalizeEncodeResult raw = Inr ys"
    by (cases raw) (auto simp: normalizeEncodeResult_def split: sum.splits)
  then show ?thesis
    by (simp add: normalizeEncodeResult_def)
qed

text \<open>
  C6, at the identifier \<^verbatim>\<open>"constructor"\<close>: it is not a key of the mapping table, yet the
  resolution inside \<^verbatim>\<open>loadTiktoken\<close> does not select \<^verbatim>\<open>cl100k_base\<close>. The read
  \<^verbatim>\<open>ENCODING_MAP["constructor"]\<close> finds the member inherited from \<^verbatim>\<open>Object.prototype\<close>, which is
  truthy, and that value is what \<^verbatim>\<open>get_encoding\<close> receives from \<^verbatim>\<open>loadTiktoken\<close>. The same
  happens at \<^verbatim>\<open>"toString"\<close> through the second read, \<^verbatim>\<open>ENCODING_MAP[model]\<close>. Everywhere else
  the resolution is as intended (\<open>encodingName_table\<close>, \<open>encodingName_default\<close>).
\<close>

theorem encodingName_constructor:
  "map_of ENCODING_MAP (toLowerCase ''constructor'') = None
   \<and> encodingName ''constructor'' = Inherited ''constructor''
   \<and> encodingName ''constructor'' \<noteq> Scheme cl100k_base
   \<and> fst (loadTiktoken E ''constructor'' initial_state)
       = get_encoding E 0 (Inherited ''constructor'')
   \<and> encodingName ''toString'' = Inherited ''toString''"
proof -
  have a: "map_of ENCODING_MAP (toLowerCase ''constructor'') = None"
    "encodingName ''constructor'' = Inherited ''constructor''"
    "encodingName ''toString'' = Inherited ''toString''"
    by code_simp+
  have "fst (loadTiktoken E ''constructor'' initial_state)
       = get_encoding E 0 (Inherited ''constructor'')"
    by (simp add: loadTiktoken_def nowMs_def initial_state_def Map_has_def call_get_encoding_def
        a(2) Date_now_read_def split: sum.splits)
  with a show ?thesis by simp
qed

text \<open>
  C4: in a cache whose keys are pairwise different (as the keys of a \<^verbatim>\<open>Map\<close> are), when two
  identifiers have the same lower-cased form and \<^verbatim>\<open>loadTiktoken\<close> has returned an encoder
  for the first, \<^verbatim>\<open>loadTiktoken\<close> on the second returns that same encoder and
  leaves the cache as it is: no entry is added, the cache holds exactly one entry under
  the lower-cased key, and the entry (its \<open>loadedAt\<close> included) is unchanged. Only the
  count of clock readings moves.
\<close>

theorem loadTiktoken_idempotent:
  assumes variants: "toLowerCase m1 = toLowerCase m2"
    and first: "loadTiktoken E m1 w = (Inr h, w1)"
    and keys: "distinct (map fst (tiktokenCache w))"
  shows "loadTiktoken E m2 w1 = (Inr h, w1\<lparr>perf_reads := Suc (perf_reads w1)\<rparr>)
    \<and> tiktokenCache (snd (loadTiktoken E m2 w1)) = tiktokenCache w1
    \<and> length (filter (\<lambda>kv. fst kv = toLowerCase m1) (tiktokenCache w1)) = 1
    \<and> distinct (map fst (tiktokenCache w1))"
proof -
  have get: "\<exists>entry. Map_get (tiktokenCache w1) (toLowerCase m1) = Some entry \<and> encoding entry = h"
  proof (cases rule: loadTiktoken_cases [where w = w and m = m1 and E = E])
    case (hit entry)
    with first show ?thesis by (auto simp: loadTiktoken_hit)
  next
    case (fail err)
    with first show ?thesis by (simp add: loadTiktoken_miss_fail)
  next
    case (ok enc)
    with first show ?thesis by (auto simp: loadTiktoken_miss_ok Map_get_appended)
  qed
  have dist: "distinct (map fst (tiktokenCache w1))"
  proof (cases rule: loadTiktoken_cases [where w = w and m = m1 and E = E])
    case (hit entry)
    with first keys show ?thesis by (auto simp: loadTiktoken_hit)
  next
    case (fail err)
    with first show ?thesis by (simp add: loadTiktoken_miss_fail)
  next
    case (ok enc)
    with first keys show ?thesis by (auto simp: loadTiktoken_miss_ok Map_has_def)
  qed
  from get obtain entry
    where e: "Map_get (tiktokenCache w1) (toLowerCase m2) = Some entry" "encoding entry = h"
    using variants by auto
  show ?thesis
    using loadTiktoken_hit [OF e(1), of E] e(2) dist one_entry_per_key [OF dist] get
    by (auto simp: Map_get_def)
qed

theorem loadTiktoken_idempotent_witness:
  "toLowerCase ''GPT-4'' = toLowerCase ''gpt-4''
   \<and> fst (loadTiktoken E_ok ''GPT-4'' initial_state) = Inr 0
   \<and> fst (loadTiktoken E_ok ''gpt-4'' (snd (loadTiktoken E_ok ''GPT-4'' initial_state))) = Inr 0
   \<and> length (tiktokenCache (snd (loadTiktoken E_ok ''gpt-4''
        (snd (loadTiktoken E_ok ''GPT-4'' initial_state))))) = 1"
proof -
  have v: "toLowerCase ''GPT-4'' = toLowerCase ''gpt-4''"
    by code_simp
  have f: "fst (loadTiktoken E_ok ''GPT-4'' initial_state) = Inr 0"
    by code_simp
  then have l: "loadTiktoken E_ok ''GPT-4'' initial_state
      = (Inr 0, snd (loadTiktoken E_ok ''GPT-4'' initial_state))"
    by (simp add: prod_eq_iff)
  have k: "distinct (map fst (tiktokenCache initial_state))"
    by (simp add: initial_state_def)
  have n: "length (tiktokenCache (snd (loadTiktoken E_ok ''GPT-4'' initial_state))) = 1"
    by code_simp
  from loadTiktoken_idempotent [OF v l k] v f n show ?thesis
    by simp
qed

text \<open>
  C5: on a cache miss, when \<^verbatim>\<open>get_encoding\<close> throws, \<^verbatim>\<open>loadTiktoken\<close> throws the same value to
  its caller and both the cache and the Llama singleton are what they were before the
  call.
\<close>

theorem loadTiktoken_failure_propagates:
  assumes "\<not> Map_has (tiktokenCache w) (toLowerCase m)"
    and "get_encoding E (encodings_made w) (encodingName m) = Inl err"
  shows "fst (loadTiktoken E m w) = Inl err
    \<and> tiktokenCache (snd (loadTiktoken E m w)) = tiktokenCache w
    \<and> llamaTokenizerCache (snd (loadTiktoken E m w)) = llamaTokenizerCache w"
  using assms by (simp add: loadTiktoken_miss_fail)

theorem loadTiktoken_failure_propagates_witness:
  "\<not> Map_has (tiktokenCache initial_state) (toLowerCase ''gpt-4'')
   \<and> get_encoding E_down (encodings_made initial_state) (encodingName ''gpt-4'')
       = Inl (Thrown ''wasm not ready'')
   \<and> fst (loadTiktoken E_down ''gpt-4'' initial_state) = Inl (Thrown ''wasm not ready'')
   \<and> tiktokenCache (snd (loadTiktoken E_down ''gpt-4'' initial_state)) = []"
proof -
  have a: "\<not> Map_has (tiktokenCache initial_state) (toLowerCase ''gpt-4'')"
    by (simp add: initial_state_def Map_has_def)
  have b: "get_encoding E_down (encodings_made initial_state) (encodingName ''gpt-4'')
      = Inl (Thrown ''wasm not ready'')"
    by (simp add: E_down_def)
  have c: "tiktokenCache initial_state = []"
    by (simp add: initial_state_def)
  from loadTiktoken_failure_propagates [OF a b] a b c show ?thesis
    by simp
qed




text \<open>
  C1: \<^verbatim>\<open>countTokensAuto\<close> lower-cases the identifier and returns the token count of the
  strategy it selects, leaving the cache and the singleton as that strategy leaves them:
  \<^verbatim>\<open>countTokensWithTiktoken\<close> on the identifier when the lower-cased identifier contains one
  of \<^verbatim>\<open>gpt\<close>, \<^verbatim>\<open>text-\<close>, \<^verbatim>\<open>davinci\<close>, \<^verbatim>\<open>curie\<close>, \<^verbatim>\<open>babbage\<close>, \<^verbatim>\<open>ada\<close> (checked first, so it
  wins when both families match); otherwise \<^verbatim>\<open>countTokensWithLlama\<close> when it contains one of
  \<^verbatim>\<open>llama\<close>, \<^verbatim>\<open>mistral\<close>, \<^verbatim>\<open>mixtral\<close>, \<^verbatim>\<open>codellama\<close>, \<^verbatim>\<open>vicuna\<close>, \<^verbatim>\<open>alpaca\<close>; otherwise
  \<^verbatim>\<open>countTokensWithTiktoken\<close> on \<^verbatim>\<open>"gpt-4"\<close>. The reported time is the router's own.
\<close>

theorem countTokensAuto_dispatch:
  "(\<exists>r s. fst (countTokensAuto E text m w) = Inr r
     \<and> fst (if isOpenAI (toLowerCase m) then countTokensWithTiktoken E text m w
            else if isLlama (toLowerCase m) then countTokensWithLlama E text w
            else countTokensWithTiktoken E text ''gpt-4'' w) = Inr s
     \<and> tokens r = tokens s)
   \<and> tiktokenCache (snd (countTokensAuto E text m w)) =
         tiktokenCache (snd (if isOpenAI (toLowerCase m) then countTokensWithTiktoken E text m w
            else if isLlama (toLowerCase m) then countTokensWithLlama E text w
            else countTokensWithTiktoken E text ''gpt-4'' w))
   \<and> llamaTokenizerCache (snd (countTokensAuto E text m w)) =
         llamaTokenizerCache (snd (if isOpenAI (toLowerCase m) then countTokensWithTiktoken E text m w
            else if isLlama (toLowerCase m) then countTokensWithLlama E text w
            else countTokensWithTiktoken E text ''gpt-4'' w))
   \<and> isOpenAI l = (includes_str l ''gpt'' \<or> includes_str l ''text-'' \<or> includes_str l ''davinci''
         \<or> includes_str l ''curie'' \<or> includes_str l ''babbage'' \<or> includes_str l ''ada'')
   \<and> isLlama l = (includes_str l ''llama'' \<or> includes_str l ''mistral'' \<or> includes_str l ''mixtral''
         \<or> includes_str l ''codellama'' \<or> includes_str l ''vicuna'' \<or> includes_str l ''alpaca'')
   \<and> includes_str l p = (\<exists>a b. l = a @ p @ b)"
proof -
  have "isOpenAI l = (includes_str l ''gpt'' \<or> includes_str l ''text-'' \<or> includes_str l ''davinci''
         \<or> includes_str l ''curie'' \<or> includes_str l ''babbage'' \<or> includes_str l ''ada'')"
    by (rule isOpenAI_substrings)
  moreover have "isLlama l = (includes_str l ''llama'' \<or> includes_str l ''mistral'' \<or> includes_str l ''mixtral''
         \<or> includes_str l ''codellama'' \<or> includes_str l ''vicuna'' \<or> includes_str l ''alpaca'')"
    by (rule isLlama_substrings)
  moreover have "includes_str l p = (\<exists>a b. l = a @ p @ b)"
    by (rule includes_str_iff)
  ultimately show ?thesis
    by (simp add: countTokensAuto_def Let_def nowMs_def finish_def countTokensWithTiktoken_clock
      countTokensWithLlama_clock countTokensWithTiktoken_eq countTokensWithLlama_eq
      tiktoken_try_clock llama_try_clock)
qed

theorem countTokensAuto_dispatch_witness:
  "isOpenAI (toLowerCase ''GPT-Llama'') \<and> isLlama (toLowerCase ''GPT-Llama'')
   \<and> (\<exists>r s. fst (countTokensAuto E_ok ''hello world'' ''GPT-Llama'' initial_state) = Inr r
         \<and> fst (countTokensWithTiktoken E_ok ''hello world'' ''GPT-Llama'' initial_state) = Inr s
         \<and> tokens r = tokens s)"
proof -
  have a: "isOpenAI (toLowerCase ''GPT-Llama'')" "isLlama (toLowerCase ''GPT-Llama'')"
    by code_simp+
  from countTokensAuto_dispatch [of E_ok "''hello world''" "''GPT-Llama''" initial_state "[]" "[]"] a
  show ?thesis
    by simp
qed

text \<open>
  C3, as stated, fails on a message whose content makes \<^verbatim>\<open>encode\<close> throw: the encoder
  loads, and \<^verbatim>\<open>countChatTokens\<close> returns no number, it throws what \<^verbatim>\<open>encode\<close> threw.
\<close>

theorem countChatTokens_counterexample:
  "fst (loadTiktoken E_ok ''gpt-4'' initial_state) = Inr 0
   \<and> fst (countChatTokens E_ok [\<lparr>role = ''user'', content = ''<|endoftext|>''\<rparr>] ''gpt-4'' initial_state)
       = Inl (Thrown ''special token'')"
  by code_simp

text \<open>
  C3, amended: when the encoder loads and \<^verbatim>\<open>encode\<close> returns on every role and content
  string (\<open>n s\<close> being the length of the normalized result on \<open>s\<close>), \<^verbatim>\<open>countChatTokens\<close>
  returns exactly 3 plus, for each message, 4 plus \<open>n\<close> of its role plus \<open>n\<close> of its
  content. When the encoder load throws, \<^verbatim>\<open>countChatTokens\<close> throws the same value: there is
  no fallback estimate.
\<close>

theorem countChatTokens_sum:
  "(loadTiktoken E m w = (Inr enc, w')
      \<and> (\<forall>msg\<in>set msgs. encoded_length E enc (role msg) = Inr (n (role msg))
             \<and> encoded_length E enc (content msg) = Inr (n (content msg)))
     \<longrightarrow> countChatTokens E msgs m w
           = (Inr (3 + (\<Sum>msg\<leftarrow>msgs. 4 + n (role msg) + n (content msg))), w'))
   \<and> (loadTiktoken E m w = (Inl e, w') \<longrightarrow> countChatTokens E msgs m w = (Inl e, w'))
   \<and> (encoded_length E enc s = Inr k
        \<longleftrightarrow> (\<exists>raw xs. tk_encode E enc s = Inr raw \<and> normalizeEncodeResult raw = Inr xs \<and> k = length xs))"
proof (intro conjI impI)
  assume a: "loadTiktoken E m w = (Inr enc, w')
      \<and> (\<forall>msg\<in>set msgs. encoded_length E enc (role msg) = Inr (n (role msg))
             \<and> encoded_length E enc (content msg) = Inr (n (content msg)))"
  then have "chat_loop E enc msgs 3 = Inr (3 + (\<Sum>msg\<leftarrow>msgs. 4 + n (role msg) + n (content msg)))"
    by (intro chat_loop_sum) blast
  with a show "countChatTokens E msgs m w
           = (Inr (3 + (\<Sum>msg\<leftarrow>msgs. 4 + n (role msg) + n (content msg))), w')"
    by (simp add: countChatTokens_def)
next
  assume "loadTiktoken E m w = (Inl e, w')"
  then show "countChatTokens E msgs m w = (Inl e, w')"
    by (simp add: countChatTokens_def)
next
  show "encoded_length E enc s = Inr k
        \<longleftrightarrow> (\<exists>raw xs. tk_encode E enc s = Inr raw \<and> normalizeEncodeResult raw = Inr xs \<and> k = length xs)"
    by (auto simp: encoded_length_def split: sum.splits)
qed

theorem countChatTokens_sum_witness:
  "fst (loadTiktoken E_ok ''gpt-4'' initial_state) = Inr 0
   \<and> encoded_length E_ok 0 ''user'' = Inr 4
   \<and> encoded_length E_ok 0 ''hi'' = Inr 2
   \<and> fst (countChatTokens E_ok [\<lparr>role = ''user'', content = ''hi''\<rparr>] ''gpt-4'' initial_state)
       = Inr (3 + 4 + 4 + 2)
   \<and> fst (loadTiktoken E_down ''gpt-4'' initial_state) = Inl (Thrown ''wasm not ready'')
   \<and> fst (countChatTokens E_down [\<lparr>role = ''user'', content = ''hi''\<rparr>] ''gpt-4'' initial_state)
       = Inl (Thrown ''wasm not ready'')"
proof -
  let ?msgs = "[\<lparr>role = ''user'', content = ''hi''\<rparr>]"
  let ?n = "\<lambda>s. if s = ''user'' then 4 else (2::nat)"
  have lf: "fst (loadTiktoken E_ok ''gpt-4'' initial_state) = Inr 0"
    by code_simp
  then have l: "loadTiktoken E_ok ''gpt-4'' initial_state
      = (Inr 0, snd (loadTiktoken E_ok ''gpt-4'' initial_state))"
    by (simp add: prod_eq_iff)
  have u: "encoded_length E_ok 0 ''user'' = Inr 4" "encoded_length E_ok 0 ''hi'' = Inr 2"
    by code_simp+
  have df: "fst (loadTiktoken E_down ''gpt-4'' initial_state) = Inl (Thrown ''wasm not ready'')"
    by code_simp
  then have d: "loadTiktoken E_down ''gpt-4'' initial_state
      = (Inl (Thrown ''wasm not ready''), snd (loadTiktoken E_down ''gpt-4'' initial_state))"
    by (simp add: prod_eq_iff)
  have h: "loadTiktoken E_ok ''gpt-4'' initial_state
      = (Inr 0, snd (loadTiktoken E_ok ''gpt-4'' initial_state))
    \<and> (\<forall>msg\<in>set ?msgs. encoded_length E_ok 0 (role msg) = Inr (?n (role msg))
           \<and> encoded_length E_ok 0 (content msg) = Inr (?n (content msg)))"
    using l u by simp
  have "countChatTokens E_ok ?msgs ''gpt-4'' initial_state
      = (Inr (3 + (\<Sum>msg\<leftarrow>?msgs. 4 + ?n (role msg) + ?n (content msg))),
         snd (loadTiktoken E_ok ''gpt-4'' initial_state))"
    by (rule countChatTokens_sum [THEN conjunct1, THEN mp, OF h])
  then have 1: "fst (countChatTokens E_ok ?msgs ''gpt-4'' initial_state) = Inr (3 + 4 + 4 + 2)"
    by simp
  have "countChatTokens E_down ?msgs ''gpt-4'' initial_state
      = (Inl (Thrown ''wasm not ready''), snd (loadTiktoken E_down ''gpt-4'' initial_state))"
    by (rule countChatTokens_sum [THEN conjunct2, THEN conjunct1, THEN mp, OF d])
  then have 2: "fst (countChatTokens E_down ?msgs ''gpt-4'' initial_state)
      = Inl (Thrown ''wasm not ready'')"
    by simp
  from lf u 1 df 2 show ?thesis by blast
qed

text \<open>
  C7: from any state, after \<^verbatim>\<open>clearTokenizerCache\<close> the statistics report zero entries, no
  identifiers, no oldest entry and \<open>llamaLoaded = False\<close>. On a cache that is already empty
  the call returns and only resets the singleton. A \<^verbatim>\<open>loadTiktoken\<close> that follows, when
  \<^verbatim>\<open>get_encoding\<close> returns an encoder, returns that encoder and leaves it as the single
  entry of the cache, under the lower-cased identifier.
\<close>

theorem clearTokenizerCache_resets:
  "fst (getCacheStats (clearTokenizerCache E w))
     = \<lparr>tiktokenEntries = 0, llamaLoaded = False, models = [], oldestEntry = None\<rparr>
   \<and> (tiktokenCache w = [] \<longrightarrow> clearTokenizerCache E w = w\<lparr>llamaTokenizerCache := None\<rparr>)
   \<and> (get_encoding E (encodings_made w) (encodingName m) = Inr enc
        \<longrightarrow> fst (loadTiktoken E m (clearTokenizerCache E w)) = Inr enc
          \<and> tiktokenCache (snd (loadTiktoken E m (clearTokenizerCache E w)))
              = [(toLowerCase m, \<lparr>encoding = enc, model = m, loadedAt = Date_now E (date_reads w)\<rparr>)])"
proof (intro conjI impI)
  show "fst (getCacheStats (clearTokenizerCache E w))
     = \<lparr>tiktokenEntries = 0, llamaLoaded = False, models = [], oldestEntry = None\<rparr>"
    by (simp add: getCacheStats_eq)
next
  assume "tiktokenCache w = []"
  then show "clearTokenizerCache E w = w\<lparr>llamaTokenizerCache := None\<rparr>"
    by (simp add: clearTokenizerCache_def)
next
  assume a: "get_encoding E (encodings_made w) (encodingName m) = Inr enc"
  have miss: "\<not> Map_has (tiktokenCache (clearTokenizerCache E w)) (toLowerCase m)"
    by (simp add: Map_has_def)
  from a have ok: "get_encoding E (encodings_made (clearTokenizerCache E w)) (encodingName m) = Inr enc"
    by simp
  show "fst (loadTiktoken E m (clearTokenizerCache E w)) = Inr enc"
    by (simp add: loadTiktoken_miss_ok [OF miss ok])
  show "tiktokenCache (snd (loadTiktoken E m (clearTokenizerCache E w)))
      = [(toLowerCase m, \<lparr>encoding = enc, model = m, loadedAt = Date_now E (date_reads w)\<rparr>)]"
    by (simp add: loadTiktoken_miss_ok [OF miss ok])
qed

theorem clearTokenizerCache_resets_witness:
  "length (tiktokenCache w_two) = 2 \<and> llamaTokenizerCache w_two = Some 2
   \<and> fst (getCacheStats (clearTokenizerCache E_ok w_two))
       = \<lparr>tiktokenEntries = 0, llamaLoaded = False, models = [], oldestEntry = None\<rparr>
   \<and> tiktokenCache (clearTokenizerCache E_ok w_two) = []
   \<and> clearTokenizerCache E_ok (clearTokenizerCache E_ok w_two)
       = (clearTokenizerCache E_ok w_two)\<lparr>llamaTokenizerCache := None\<rparr>
   \<and> get_encoding E_ok (encodings_made w_two) (encodingName ''GPT-4o'') = Inr 3
   \<and> fst (loadTiktoken E_ok ''GPT-4o'' (clearTokenizerCache E_ok w_two)) = Inr 3
   \<and> tiktokenCache (snd (loadTiktoken E_ok ''GPT-4o'' (clearTokenizerCache E_ok w_two)))
       = [(''gpt-4o'', \<lparr>encoding = 3, model = ''GPT-4o'', loadedAt = 1700000000002\<rparr>)]"
proof -
  have a: "length (tiktokenCache w_two) = 2" "llamaTokenizerCache w_two = Some 2"
    by code_simp+
  have e: "tiktokenCache (clearTokenizerCache E_ok w_two) = []"
    by (rule clearTokenizerCache_cache)
  have g: "get_encoding E_ok (encodings_made w_two) (encodingName ''GPT-4o'') = Inr 3"
    by code_simp
  have k: "toLowerCase ''GPT-4o'' = ''gpt-4o''" "Date_now E_ok (date_reads w_two) = 1700000000002"
    by code_simp+
  note t1 = clearTokenizerCache_resets [of E_ok w_two "''GPT-4o''" 3]
  note t2 = clearTokenizerCache_resets [of E_ok "clearTokenizerCache E_ok w_two" "''GPT-4o''" 3]
  from t1 t2 a e g show ?thesis
    unfolding k by simp
qed




text \<open>
  C10: in every reachable state, \<^verbatim>\<open>getCacheStats\<close> reports the keys of the cache in the
  order of the cache; each key is the lower-cased form of the identifier recorded in
  its entry, is its own lower-cased form, and occurs once; a \<^verbatim>\<open>loadTiktoken\<close> appends the
  lower-cased identifier at the end when it is new and the load succeeds, and leaves
  the list as it is otherwise. \<open>llamaLoaded\<close> holds exactly when the singleton exists,
  \<open>oldestEntry\<close> is the least \<open>loadedAt\<close> of the entries, or null on an empty cache, and
  the call leaves the state as it is.
\<close>

theorem getCacheStats_reports:
  assumes "reachable E w"
  shows "models (fst (getCacheStats w)) = map fst (tiktokenCache w)
    \<and> models (fst (getCacheStats w)) = map (\<lambda>kv. toLowerCase (model (snd kv))) (tiktokenCache w)
    \<and> (\<forall>k\<in>set (models (fst (getCacheStats w))). toLowerCase k = k)
    \<and> distinct (models (fst (getCacheStats w)))
    \<and> models (fst (getCacheStats (snd (loadTiktoken E m w)))) =
        (if toLowerCase m \<in> set (models (fst (getCacheStats w))) \<or> isl (fst (loadTiktoken E m w))
         then models (fst (getCacheStats w))
         else models (fst (getCacheStats w)) @ [toLowerCase m])
    \<and> tiktokenEntries (fst (getCacheStats w)) = length (tiktokenCache w)
    \<and> llamaLoaded (fst (getCacheStats w)) = (llamaTokenizerCache w \<noteq> None)
    \<and> oldestEntry (fst (getCacheStats w)) =
        (if tiktokenCache w = [] then None
         else Some (Min (set (map (\<lambda>kv. loadedAt (snd kv)) (tiktokenCache w)))))
    \<and> snd (getCacheStats w) = w"
proof -
  from assms have inv: "cache_inv w" by (rule reachable_cache_inv)
  then have "map fst (tiktokenCache w) = map (\<lambda>kv. toLowerCase (model (snd kv))) (tiktokenCache w)"
    by (simp add: cache_inv_def list_all_iff)
  moreover have "\<forall>k\<in>set (map fst (tiktokenCache w)). toLowerCase k = k"
    using toLowerCase_key [OF inv] by blast
  moreover have "distinct (map fst (tiktokenCache w))"
    using inv by (simp add: cache_inv_def)
  ultimately show ?thesis
    by (simp add: getCacheStats_eq loadTiktoken_keys del: set_map)
qed

theorem getCacheStats_reports_witness:
  "reachable E_ok w_two
   \<and> map (\<lambda>kv. model (snd kv)) (tiktokenCache w_two) = [''Ada'', ''GPT-4'']
   \<and> models (fst (getCacheStats w_two)) = [''ada'', ''gpt-4'']
   \<and> llamaLoaded (fst (getCacheStats w_two))
   \<and> oldestEntry (fst (getCacheStats w_two)) = Some 1700000000000
   \<and> snd (getCacheStats w_two) = w_two"
proof -
  have r: "reachable E_ok w_two"
    unfolding w_two_def
    by (intro reachable.by_countTokensWithLlama reachable.by_loadTiktoken reachable.initially)
  have v: "map (\<lambda>kv. model (snd kv)) (tiktokenCache w_two) = [''Ada'', ''GPT-4'']"
    "map (\<lambda>kv. toLowerCase (model (snd kv))) (tiktokenCache w_two) = [''ada'', ''gpt-4'']"
    "llamaTokenizerCache w_two \<noteq> None"
    "tiktokenCache w_two \<noteq> []"
    "Min (set (map (\<lambda>kv. loadedAt (snd kv)) (tiktokenCache w_two))) = 1700000000000"
    by code_simp+
  note t = getCacheStats_reports [OF r, of "''x''"]
  from t have "models (fst (getCacheStats w_two))
      = map (\<lambda>kv. toLowerCase (model (snd kv))) (tiktokenCache w_two)"
    by blast
  then have 1: "models (fst (getCacheStats w_two)) = [''ada'', ''gpt-4'']"
    unfolding v .
  from t have "llamaLoaded (fst (getCacheStats w_two)) = (llamaTokenizerCache w_two \<noteq> None)"
    by blast
  with v have 2: "llamaLoaded (fst (getCacheStats w_two))"
    by blast
  from t have "oldestEntry (fst (getCacheStats w_two)) =
        (if tiktokenCache w_two = [] then None
         else Some (Min (set (map (\<lambda>kv. loadedAt (snd kv)) (tiktokenCache w_two)))))"
    by blast
  then have 3: "oldestEntry (fst (getCacheStats w_two)) = Some 1700000000000"
    unfolding v using v(4) by simp
  from t have 4: "snd (getCacheStats w_two) = w_two"
    by blast
  from r v(1) 1 2 3 4 show ?thesis
    by blast
qed

end
